theory Spec2Isabelle
  imports Main "HOL-Library.Sublist"
begin

section \<open>The Python fragment of \<open>lms_notebook.ipynb\<close>\<close>

text \<open>
  The notebook has no function of its own: each code cell is a short sequence of
  imports, assignments and expression statements whose expressions call into the
  \<open>transformers\<close> and \<open>bertviz\<close> packages. The cells are embedded as syntax trees of
  the Python fragment they use, and an interpreter gives the fragment its meaning. The
  \<open>try\<close> statement is part of the fragment although no cell uses it, so that "no cell
  catches an exception" is a property of the notebook and not of the language.
\<close>

datatype expr =
    Name string
  | Str string
  | Num int
  | Bool bool
  | Attribute expr string
  | Subscript expr expr
  | Add expr expr
  | Call expr "arg list"
  | JoinedStr "expr list"
  | ListComp expr string expr
and arg =
    Pos expr
  | Kw string expr
  | Star2 expr

text \<open>
  \<open>Shell ws\<close> is the IPython line \<open>!w1 w2 ...\<close>, \<open>Magic m ws\<close> is \<open>%m w1 w2 ...\<close>,
  \<open>ImportFrom m ns\<close> is \<open>from m import n1, n2, ...\<close>, \<open>Try body handler\<close> is
  \<open>try: body except: handler\<close>. \<open>JoinedStr\<close> is an f-string, its literal pieces given
  as \<open>Str\<close>; \<open>ListComp elt x iter\<close> is \<open>[elt for x in iter]\<close>; \<open>Star2 e\<close> is the call
  argument \<open>**e\<close>.
\<close>

datatype stmt =
    Shell "string list"
  | Magic string "string list"
  | ImportFrom string "string list"
  | Assign string expr
  | ExprStmt expr
  | Try "stmt list" "stmt list"

datatype cell = Markdown | Code "stmt list"

subsection \<open>Values\<close>

text \<open>
  What the external packages compute is not part of the repository, so the result of a
  call is kept symbolic: \<open>VResult n\<close> is the object returned by the \<open>n\<close>-th call of the
  session, and the session's record of calls says which callee was called with which
  arguments to make it. Two objects made by different calls differ in \<open>n\<close>, so equality
  of values is identity of the object. Attribute access, subscription, formatting and
  addition of such objects are kept as terms.
\<close>

datatype argkey = KPos | KKw string | KStar2

datatype val =
    VStr string
  | VInt int
  | VBool bool
  | VImported string string
  | VBuiltin string
  | VAttr val string
  | VItem val val
  | VSum val val
  | VFormat "val list"
  | VElem val
  | VComp val val
  | VResult nat

text \<open>A call: the callee and the arguments, each with the way it was passed.\<close>

type_synonym call = "val \<times> (argkey \<times> val) list"

datatype exn = NameError string | LibError string

text \<open>
  The external world: for the \<open>n\<close>-th call of the session it says whether the callee
  raises, and what.
\<close>

type_synonym library = "nat \<Rightarrow> call \<Rightarrow> exn option"

datatype effect = Wrote string | Installed string

text \<open>
  The interactive session: the global namespace (latest binding first), the calls
  attempted so far in order, and what the notebook's own shell lines did to the machine
  outside the Python process.
\<close>

record session =
  env :: "(string \<times> val) list"
  calls :: "call list"
  disk :: "effect list"

definition builtins :: "string list" where
  "builtins = [''print'', ''input'']"

definition lookup :: "string \<Rightarrow> session \<Rightarrow> val option" where
  "lookup x s =
     (case map_of (env s) x of
        Some v \<Rightarrow> Some v
      | None \<Rightarrow> if x \<in> set builtins then Some (VBuiltin x) else None)"

fun add_val :: "val \<Rightarrow> val \<Rightarrow> val" where
  "add_val (VStr a) (VStr b) = VStr (a @ b)"
| "add_val v w = VSum v w"

definition invoke :: "library \<Rightarrow> val \<Rightarrow> (argkey \<times> val) list \<Rightarrow> session \<Rightarrow> (exn + val) \<times> session" where
  "invoke ext f as s =
     (let n = length (calls s);
          s' = s\<lparr>calls := calls s @ [(f, as)]\<rparr>
      in case ext n (f, as) of
           Some x \<Rightarrow> (Inl x, s')
         | None \<Rightarrow> (Inr (VResult n), s'))"

subsection \<open>Expressions\<close>

text \<open>
  Python evaluates the callee, then the arguments left to right, then makes the call;
  the first exception ends the evaluation. The session is returned in both cases, since
  what ran before an exception stays in effect. A comprehension's variable is local to
  it; its element expression is evaluated once, for a symbolic element of the iterable.
\<close>

fun eval :: "library \<Rightarrow> expr \<Rightarrow> session \<Rightarrow> (exn + val) \<times> session"
and eval_args :: "library \<Rightarrow> arg list \<Rightarrow> session \<Rightarrow> (exn + (argkey \<times> val) list) \<times> session"
and eval_list :: "library \<Rightarrow> expr list \<Rightarrow> session \<Rightarrow> (exn + val list) \<times> session"
where
  "eval ext (Name x) s =
     (case lookup x s of None \<Rightarrow> (Inl (NameError x), s) | Some v \<Rightarrow> (Inr v, s))"
| "eval ext (Str t) s = (Inr (VStr t), s)"
| "eval ext (Num i) s = (Inr (VInt i), s)"
| "eval ext (Bool b) s = (Inr (VBool b), s)"
| "eval ext (Attribute e a) s =
     (case eval ext e s of
        (Inl x, s1) \<Rightarrow> (Inl x, s1)
      | (Inr v, s1) \<Rightarrow> (Inr (VAttr v a), s1))"
| "eval ext (Subscript e i) s =
     (case eval ext e s of
        (Inl x, s1) \<Rightarrow> (Inl x, s1)
      | (Inr v, s1) \<Rightarrow>
          (case eval ext i s1 of
             (Inl x, s2) \<Rightarrow> (Inl x, s2)
           | (Inr w, s2) \<Rightarrow> (Inr (VItem v w), s2)))"
| "eval ext (Add a b) s =
     (case eval ext a s of
        (Inl x, s1) \<Rightarrow> (Inl x, s1)
      | (Inr v, s1) \<Rightarrow>
          (case eval ext b s1 of
             (Inl x, s2) \<Rightarrow> (Inl x, s2)
           | (Inr w, s2) \<Rightarrow> (Inr (add_val v w), s2)))"
| "eval ext (Call f as) s =
     (case eval ext f s of
        (Inl x, s1) \<Rightarrow> (Inl x, s1)
      | (Inr v, s1) \<Rightarrow>
          (case eval_args ext as s1 of
             (Inl x, s2) \<Rightarrow> (Inl x, s2)
           | (Inr ws, s2) \<Rightarrow> invoke ext v ws s2))"
| "eval ext (JoinedStr es) s =
     (case eval_list ext es s of
        (Inl x, s1) \<Rightarrow> (Inl x, s1)
      | (Inr vs, s1) \<Rightarrow> (Inr (VFormat vs), s1))"
| "eval ext (ListComp elt x it) s =
     (case eval ext it s of
        (Inl e, s1) \<Rightarrow> (Inl e, s1)
      | (Inr v, s1) \<Rightarrow>
          (case eval ext elt (s1\<lparr>env := (x, VElem v) # env s1\<rparr>) of
             (Inl e, s2) \<Rightarrow> (Inl e, s2\<lparr>env := env s1\<rparr>)
           | (Inr w, s2) \<Rightarrow> (Inr (VComp w v), s2\<lparr>env := env s1\<rparr>)))"
| "eval_args ext [] s = (Inr [], s)"
| "eval_args ext (Pos e # as) s =
     (case eval ext e s of
        (Inl x, s1) \<Rightarrow> (Inl x, s1)
      | (Inr v, s1) \<Rightarrow>
          (case eval_args ext as s1 of
             (Inl x, s2) \<Rightarrow> (Inl x, s2)
           | (Inr ws, s2) \<Rightarrow> (Inr ((KPos, v) # ws), s2)))"
| "eval_args ext (Kw k e # as) s =
     (case eval ext e s of
        (Inl x, s1) \<Rightarrow> (Inl x, s1)
      | (Inr v, s1) \<Rightarrow>
          (case eval_args ext as s1 of
             (Inl x, s2) \<Rightarrow> (Inl x, s2)
           | (Inr ws, s2) \<Rightarrow> (Inr ((KKw k, v) # ws), s2)))"
| "eval_args ext (Star2 e # as) s =
     (case eval ext e s of
        (Inl x, s1) \<Rightarrow> (Inl x, s1)
      | (Inr v, s1) \<Rightarrow>
          (case eval_args ext as s1 of
             (Inl x, s2) \<Rightarrow> (Inl x, s2)
           | (Inr ws, s2) \<Rightarrow> (Inr ((KStar2, v) # ws), s2)))"
| "eval_list ext [] s = (Inr [], s)"
| "eval_list ext (e # es) s =
     (case eval ext e s of
        (Inl x, s1) \<Rightarrow> (Inl x, s1)
      | (Inr v, s1) \<Rightarrow>
          (case eval_list ext es s1 of
             (Inl x, s2) \<Rightarrow> (Inl x, s2)
           | (Inr vs, s2) \<Rightarrow> (Inr (v # vs), s2)))"

subsection \<open>Statements and cells\<close>

text \<open>
  \<open>!wget u\<close> saves the document at \<open>u\<close> under the last component of its path, in the
  working directory; \<open>%pip install -r f\<close> installs the packages that the file \<open>f\<close>
  lists into the Python environment. Neither raises into the session: IPython prints the
  command's output and goes on.
\<close>

fun basename :: "string \<Rightarrow> string \<Rightarrow> string" where
  "basename acc [] = acc"
| "basename acc (c # cs) = (if c = CHR ''/'' then basename [] cs else basename (acc @ [c]) cs)"

fun shell_effects :: "string list \<Rightarrow> effect list" where
  "shell_effects [cmd, u] = (if cmd = ''wget'' then [Wrote (basename [] u)] else [])"
| "shell_effects ws = []"

fun magic_effects :: "string \<Rightarrow> string list \<Rightarrow> effect list" where
  "magic_effects m [sub, opt, f] =
     (if m = ''pip'' \<and> sub = ''install'' \<and> opt = ''-r'' then [Installed f] else [])"
| "magic_effects m ws = []"

fun exec :: "library \<Rightarrow> stmt \<Rightarrow> session \<Rightarrow> exn option \<times> session"
and exec_block :: "library \<Rightarrow> stmt list \<Rightarrow> session \<Rightarrow> exn option \<times> session"
where
  "exec ext (Shell ws) s = (None, s\<lparr>disk := disk s @ shell_effects ws\<rparr>)"
| "exec ext (Magic m ws) s = (None, s\<lparr>disk := disk s @ magic_effects m ws\<rparr>)"
| "exec ext (ImportFrom m ns) s =
     (None, s\<lparr>env := rev (map (\<lambda>n. (n, VImported m n)) ns) @ env s\<rparr>)"
| "exec ext (Assign x e) s =
     (case eval ext e s of
        (Inl err, s1) \<Rightarrow> (Some err, s1)
      | (Inr v, s1) \<Rightarrow> (None, s1\<lparr>env := (x, v) # env s1\<rparr>))"
| "exec ext (ExprStmt e) s =
     (case eval ext e s of
        (Inl err, s1) \<Rightarrow> (Some err, s1)
      | (Inr v, s1) \<Rightarrow> (None, s1))"
| "exec ext (Try body handler) s =
     (case exec_block ext body s of
        (None, s1) \<Rightarrow> (None, s1)
      | (Some err, s1) \<Rightarrow> exec_block ext handler s1)"
| "exec_block ext [] s = (None, s)"
| "exec_block ext (c # cs) s =
     (case exec ext c s of
        (Some err, s1) \<Rightarrow> (Some err, s1)
      | (None, s1) \<Rightarrow> exec_block ext cs s1)"

fun run_cell :: "library \<Rightarrow> cell \<Rightarrow> session \<Rightarrow> exn option \<times> session" where
  "run_cell ext Markdown s = (None, s)"
| "run_cell ext (Code ss) s = exec_block ext ss s"

text \<open>Running the cells top to bottom; the run stops at the first cell that raises.\<close>

fun run_cells :: "library \<Rightarrow> cell list \<Rightarrow> session \<Rightarrow> exn option \<times> session" where
  "run_cells ext [] s = (None, s)"
| "run_cells ext (c # cs) s =
     (case run_cell ext c s of
        (Some err, s1) \<Rightarrow> (Some err, s1)
      | (None, s1) \<Rightarrow> run_cells ext cs s1)"

definition fresh :: session where
  "fresh = \<lparr>env = [], calls = [], disk = []\<rparr>"

definition no_failure :: library where
  "no_failure n c = None"

section \<open>The notebook\<close>

text \<open>
  The code cells of \<open>lms_notebook.ipynb\<close> in the order of the file, one definition for
  each, statement for statement. \<open>outputs[-1]\<close> is written with the number \<open>-1\<close>.
\<close>

definition install_cell :: "stmt list" where
  "install_cell =
    [Shell [''wget'',
       ''https://raw.githubusercontent.com/wrmthorne/LMs_Session/main/requirements.txt''],
     Magic ''pip'' [''install'', ''-r'', ''requirements.txt'']]"

definition import_cell :: "stmt list" where
  "import_cell =
    [ImportFrom ''transformers''
       [''AutoModel'', ''AutoTokenizer'', ''pipeline'', ''utils'',
        ''T5ForConditionalGeneration''],
     ImportFrom ''bertviz'' [''model_view'', ''head_view''],
     ImportFrom ''bertviz.neuron_view'' [''show''],
     ImportFrom ''bertviz.transformers_neuron_view'' [''BertModel'', ''BertTokenizer''],
     ExprStmt (Call (Attribute (Attribute (Name ''utils'') ''logging'')
                 ''set_verbosity_error'') []),
     Assign ''model_type'' (Str ''bert''),
     Assign ''model_version'' (Str ''bert-base-cased'')]"

definition tokenising_cell :: "stmt list" where
  "tokenising_cell =
    [Assign ''tokenizer''
       (Call (Attribute (Name ''AutoTokenizer'') ''from_pretrained'')
          [Pos (Name ''model_version'')]),
     Assign ''test_string'' (Str ''WANDISCO''),
     Assign ''token_ids''
       (Call (Attribute (Name ''tokenizer'') ''encode'') [Pos (Name ''test_string'')]),
     ExprStmt (Call (Name ''print'')
       [Pos (JoinedStr [Str ''IDS: '', Name ''token_ids''])]),
     Assign ''tokens''
       (Call (Attribute (Name ''tokenizer'') ''convert_ids_to_tokens'')
          [Pos (Name ''token_ids'')]),
     ExprStmt (Call (Name ''print'')
       [Pos (JoinedStr [Str ''Tokens: '', Name ''tokens''])])]"

definition unmasker_cell :: "stmt list" where
  "unmasker_cell =
    [Assign ''unmasker''
       (Call (Name ''pipeline'') [Pos (Str ''fill-mask''), Kw ''model'' (Name ''model_version'')]),
     Assign ''test_string'' (Str ''WANDISCO is a [MASK] company''),
     ExprStmt (Call (Name ''unmasker'') [Pos (Name ''test_string'')])]"

definition bias_cell :: "stmt list" where
  "bias_cell =
    [Assign ''male_preds''
       (Call (Name ''unmasker'') [Pos (Str ''The man worked as a [MASK].'')]),
     Assign ''female_preds''
       (Call (Name ''unmasker'') [Pos (Str ''The woman worked as a [MASK].'')]),
     ExprStmt (Call (Name ''print'')
       [Pos (JoinedStr [Str ''Male predictions: '',
          ListComp (Subscript (Name ''pred'') (Str ''token_str'')) ''pred''
            (Name ''male_preds'')])]),
     ExprStmt (Call (Name ''print'')
       [Pos (JoinedStr [Str ''Female predictions: '',
          ListComp (Subscript (Name ''pred'') (Str ''token_str'')) ''pred''
            (Name ''female_preds'')])])]"

definition neuron_view_cell :: "stmt list" where
  "neuron_view_cell =
    [Assign ''sentence_a'' (Str ''The rabbit ran up the hill and the fox followed''),
     Assign ''bert_model''
       (Call (Attribute (Name ''BertModel'') ''from_pretrained'')
          [Pos (Name ''model_version''), Kw ''output_attentions'' (Bool True)]),
     Assign ''bert_tokenizer''
       (Call (Attribute (Name ''BertTokenizer'') ''from_pretrained'')
          [Pos (Name ''model_version''), Kw ''do_lower_case'' (Bool False)]),
     ExprStmt (Call (Name ''show'')
       [Pos (Name ''bert_model''), Pos (Name ''model_type''), Pos (Name ''bert_tokenizer''),
        Pos (Name ''sentence_a''), Kw ''layer'' (Num 2), Kw ''head'' (Num 0)])]"

definition model_view_cell :: "stmt list" where
  "model_view_cell =
    [Assign ''model''
       (Call (Attribute (Name ''AutoModel'') ''from_pretrained'')
          [Pos (Name ''model_version''), Kw ''output_attentions'' (Bool True)]),
     Assign ''tokenizer''
       (Call (Attribute (Name ''AutoTokenizer'') ''from_pretrained'')
          [Pos (Name ''model_version'')]),
     Assign ''inputs''
       (Call (Attribute (Name ''tokenizer'') ''encode'')
          [Pos (Name ''sentence_a''), Kw ''return_tensors'' (Str ''pt'')]),
     Assign ''outputs'' (Call (Name ''model'') [Pos (Name ''inputs'')]),
     Assign ''attention'' (Subscript (Name ''outputs'') (Num (- 1))),
     Assign ''tokens''
       (Call (Attribute (Name ''tokenizer'') ''convert_ids_to_tokens'')
          [Pos (Subscript (Name ''inputs'') (Num 0))]),
     ExprStmt (Call (Name ''model_view'') [Pos (Name ''attention''), Pos (Name ''tokens'')])]"

definition two_sentence_cell :: "stmt list" where
  "two_sentence_cell =
    [Assign ''sentence_b'' (Str ''The rabbit ran up the hill and the fox did not follow''),
     Assign ''inputs''
       (Call (Attribute (Name ''tokenizer'') ''encode'')
          [Pos (Name ''sentence_a''), Pos (Name ''sentence_b''),
           Kw ''return_tensors'' (Str ''pt'')]),
     Assign ''outputs'' (Call (Name ''model'') [Pos (Name ''inputs'')]),
     Assign ''attention'' (Subscript (Name ''outputs'') (Num (- 1))),
     Assign ''tokens''
       (Call (Attribute (Name ''tokenizer'') ''convert_ids_to_tokens'')
          [Pos (Subscript (Name ''inputs'') (Num 0))]),
     ExprStmt (Call (Name ''print'')
       [Pos (Call (Attribute (Str '' '') ''join'') [Pos (Name ''tokens'')])]),
     ExprStmt (Call (Name ''model_view'') [Pos (Name ''attention''), Pos (Name ''tokens'')])]"

definition translate_cell :: "stmt list" where
  "translate_cell =
    [Assign ''t5_model''
       (Call (Attribute (Name ''T5ForConditionalGeneration'') ''from_pretrained'')
          [Pos (Str ''t5-small''), Kw ''output_attentions'' (Bool True)]),
     Assign ''t5_tokenizer''
       (Call (Attribute (Name ''AutoTokenizer'') ''from_pretrained'')
          [Pos (Str ''t5-small''), Kw ''model_max_length'' (Num 512)]),
     Assign ''input''
       (Call (Name ''t5_tokenizer'')
          [Pos (Str ''translate English to German: I flew to Germany.''),
           Kw ''return_tensors'' (Str ''pt'')]),
     Assign ''output_ids''
       (Call (Attribute (Name ''t5_model'') ''generate'')
          [Star2 (Name ''input''), Kw ''max_length'' (Num 512)]),
     Assign ''output_tokens''
       (Call (Attribute (Name ''t5_tokenizer'') ''batch_decode'') [Pos (Name ''output_ids'')]),
     ExprStmt (Name ''output_tokens'')]"

definition summarize_cell :: "stmt list" where
  "summarize_cell =
    [Assign ''prompt'' (Str ''summarize:''),
     Assign ''prefix'' (Str (''This is a long story about the rabbit and the fox. '' @
       ''The rabbit ran up the hill to escape the fox. One time the fox followed. '' @
       ''The other time, it did not.'')),
     Assign ''input''
       (Call (Name ''t5_tokenizer'')
          [Pos (Add (Add (Name ''prompt'') (Str '' '')) (Name ''prefix'')),
           Kw ''return_tensors'' (Str ''pt'')]),
     Assign ''output_ids''
       (Call (Attribute (Name ''t5_model'') ''generate'')
          [Star2 (Name ''input''), Kw ''max_length'' (Num 512)]),
     Assign ''output_tokens''
       (Call (Attribute (Name ''t5_tokenizer'') ''batch_decode'') [Pos (Name ''output_ids'')]),
     ExprStmt (Name ''output_tokens'')]"

definition t5_attention_cell :: "stmt list" where
  "t5_attention_cell =
    [Assign ''encoder_input_ids''
       (Attribute
          (Call (Name ''t5_tokenizer'')
             [Pos (Str ''translate English to German: I flew to Germany.''),
              Kw ''return_tensors'' (Str ''pt''), Kw ''add_special_tokens'' (Bool True)])
          ''input_ids''),
     Assign ''decoder_input_ids''
       (Attribute
          (Call (Name ''t5_tokenizer'')
             [Kw ''text_target'' (Str ''Ich flog nach Deutschland.''),
              Kw ''return_tensors'' (Str ''pt''), Kw ''add_special_tokens'' (Bool True)])
          ''input_ids''),
     Assign ''outputs''
       (Call (Name ''t5_model'')
          [Kw ''input_ids'' (Name ''encoder_input_ids''),
           Kw ''decoder_input_ids'' (Name ''decoder_input_ids'')]),
     Assign ''encoder_text''
       (Call (Attribute (Name ''t5_tokenizer'') ''convert_ids_to_tokens'')
          [Pos (Subscript (Name ''encoder_input_ids'') (Num 0))]),
     Assign ''decoder_text''
       (Call (Attribute (Name ''t5_tokenizer'') ''convert_ids_to_tokens'')
          [Pos (Subscript (Name ''decoder_input_ids'') (Num 0))]),
     ExprStmt (Call (Name ''model_view'')
       [Kw ''encoder_attention'' (Attribute (Name ''outputs'') ''encoder_attentions''),
        Kw ''decoder_attention'' (Attribute (Name ''outputs'') ''decoder_attentions''),
        Kw ''cross_attention'' (Attribute (Name ''outputs'') ''cross_attentions''),
        Kw ''encoder_tokens'' (Name ''encoder_text''),
        Kw ''decoder_tokens'' (Name ''decoder_text'')])]"

text \<open>All 21 cells; a markdown cell runs nothing.\<close>

definition notebook :: "cell list" where
  "notebook =
    [Markdown, Code install_cell, Code import_cell,
     Markdown, Code tokenising_cell,
     Markdown, Code unmasker_cell,
     Markdown, Code bias_cell,
     Markdown, Code neuron_view_cell,
     Markdown, Code model_view_cell,
     Markdown, Code two_sentence_cell,
     Markdown, Code translate_cell,
     Markdown, Code summarize_cell,
     Markdown, Code t5_attention_cell]"

section \<open>The run in which nothing raises\<close>

text \<open>
  The cells have no branch and no loop, so the run of all cells in which no call raises
  is the one run that reaches every call of the notebook; any other run is cut short at
  the first call that raises.
\<close>

definition full_run :: "exn option \<times> session" where
  "full_run = run_cells no_failure notebook fresh"

definition full_trace :: "call list" where
  "full_trace = calls (snd full_run)"

fun call_of :: "call list \<Rightarrow> val \<Rightarrow> call option" where
  "call_of tr (VResult n) = (if n < length tr then Some (tr ! n) else None)"
| "call_of tr v = None"

subsection \<open>Text generation\<close>

definition is_generate :: "call \<Rightarrow> bool" where
  "is_generate c = (case fst c of VAttr m a \<Rightarrow> a = ''generate'' | _ \<Rightarrow> False)"

text \<open>The keyword arguments of a call: for \<open>generate\<close>, the decoding parameters set by the caller.\<close>

fun keyword_args :: "(argkey \<times> val) list \<Rightarrow> (string \<times> val) list" where
  "keyword_args [] = []"
| "keyword_args ((KKw k, v) # as) = (k, v) # keyword_args as"
| "keyword_args (a # as) = keyword_args as"

definition library_defaults_only :: "call \<Rightarrow> bool" where
  "library_defaults_only c = (keyword_args (snd c) = [])"

subsection \<open>Attention visualisation\<close>

definition loaded_with_attentions :: "call list \<Rightarrow> val \<Rightarrow> bool" where
  "loaded_with_attentions tr m =
     (case call_of tr m of
        Some (VAttr cls a, as) \<Rightarrow>
          a = ''from_pretrained'' \<and> (KKw ''output_attentions'', VBool True) \<in> set as
      | _ \<Rightarrow> False)"

text \<open>
  The object an attention value is read from: \<open>out[-1]\<close>, or one of the three attention
  fields of \<open>out\<close>. It comes from a forward pass of \<open>m\<close> when the call that made \<open>out\<close> has
  the callee \<open>m\<close>.
\<close>

fun attention_output :: "val \<Rightarrow> val option" where
  "attention_output (VItem out (VInt i)) = (if i = - 1 then Some out else None)"
| "attention_output (VAttr out f) =
     (if f \<in> set [''encoder_attentions'', ''decoder_attentions'', ''cross_attentions'']
      then Some out else None)"
| "attention_output v = None"

definition forward_model :: "call list \<Rightarrow> val \<Rightarrow> val option" where
  "forward_model tr a =
     (case attention_output a of
        None \<Rightarrow> None
      | Some out \<Rightarrow> map_option fst (call_of tr out))"

definition attention_keywords :: "string list" where
  "attention_keywords =
     [''attention'', ''encoder_attention'', ''decoder_attention'', ''cross_attention'']"

fun attention_args :: "(argkey \<times> val) list \<Rightarrow> val list" where
  "attention_args [] = []"
| "attention_args ((KKw k, v) # as) =
     (if k \<in> set attention_keywords then v # attention_args as else attention_args as)"
| "attention_args (a # as) = attention_args as"

text \<open>\<open>model_view\<close> takes the attention as its first positional argument or by keyword.\<close>

definition model_view_attentions :: "(argkey \<times> val) list \<Rightarrow> val list" where
  "model_view_attentions as =
     (case as of (KPos, a) # rest \<Rightarrow> a # attention_args rest | _ \<Rightarrow> attention_args as)"

definition from_model_with_attentions :: "call list \<Rightarrow> val \<Rightarrow> bool" where
  "from_model_with_attentions tr a =
     (case forward_model tr a of None \<Rightarrow> False | Some m \<Rightarrow> loaded_with_attentions tr m)"

definition is_show :: "call \<Rightarrow> bool" where
  "is_show c = (fst c = VImported ''bertviz.neuron_view'' ''show'')"

definition is_model_view :: "call \<Rightarrow> bool" where
  "is_model_view c = (fst c = VImported ''bertviz'' ''model_view'')"

text \<open>
  \<open>show\<close> is handed the model itself, \<open>model_view\<close> attention values: all of them read
  from one output object, made by a forward pass of a model loaded with
  \<open>output_attentions=True\<close>.
\<close>

definition visualisation_ok :: "call list \<Rightarrow> call \<Rightarrow> bool" where
  "visualisation_ok tr c =
     (if is_show c then
        (case snd c of (KPos, m) # rest \<Rightarrow> loaded_with_attentions tr m | _ \<Rightarrow> False)
      else if is_model_view c then
        list_all (from_model_with_attentions tr) (model_view_attentions (snd c)) \<and>
        length (remdups (map attention_output (model_view_attentions (snd c)))) = 1
      else True)"

subsection \<open>Token labels\<close>

text \<open>
  The id sequence whose first row the labels \<open>t\<close> were converted from, and the id
  sequence that the forward pass behind the attention value \<open>a\<close> was given under the
  argument key \<open>k\<close>.
\<close>

definition labelled_ids :: "call list \<Rightarrow> val \<Rightarrow> val option" where
  "labelled_ids tr t =
     (case call_of tr t of
        Some (VAttr tok m, [(KPos, VItem ids (VInt i))]) \<Rightarrow>
          if m = ''convert_ids_to_tokens'' \<and> i = 0 then Some ids else None
      | _ \<Rightarrow> None)"

definition fed_ids :: "call list \<Rightarrow> val \<Rightarrow> argkey \<Rightarrow> val option" where
  "fed_ids tr a k =
     (case attention_output a of
        None \<Rightarrow> None
      | Some out \<Rightarrow>
          (case call_of tr out of None \<Rightarrow> None | Some c \<Rightarrow> map_of (snd c) k))"

text \<open>
  The pairs of attention and labels in the arguments of \<open>model_view\<close>, each with the key
  under which the model takes the ids that the labels must come from: the two
  positional arguments (the model called with the ids as its positional argument), the
  encoder pair (\<open>input_ids\<close>) and the decoder pair (\<open>decoder_input_ids\<close>).
\<close>

definition label_pairs :: "(argkey \<times> val) list \<Rightarrow> (val \<times> val \<times> argkey) list" where
  "label_pairs as =
     (case as of (KPos, a) # (KPos, t) # rest \<Rightarrow> [(a, t, KPos)] | _ \<Rightarrow> []) @
     (case (map_of as (KKw ''encoder_attention''), map_of as (KKw ''encoder_tokens'')) of
        (Some a, Some t) \<Rightarrow> [(a, t, KKw ''input_ids'')] | _ \<Rightarrow> []) @
     (case (map_of as (KKw ''decoder_attention''), map_of as (KKw ''decoder_tokens'')) of
        (Some a, Some t) \<Rightarrow> [(a, t, KKw ''decoder_input_ids'')] | _ \<Rightarrow> [])"

text \<open>The label arguments of \<open>model_view\<close>: the second positional one and those by keyword.\<close>

fun label_kwargs :: "(argkey \<times> val) list \<Rightarrow> val list" where
  "label_kwargs [] = []"
| "label_kwargs ((KKw k, v) # as) =
     (if k \<in> set [''tokens'', ''encoder_tokens'', ''decoder_tokens'']
      then v # label_kwargs as else label_kwargs as)"
| "label_kwargs (a # as) = label_kwargs as"

definition label_args :: "(argkey \<times> val) list \<Rightarrow> val list" where
  "label_args as =
     (case as of (KPos, a) # (KPos, t) # rest \<Rightarrow> [t] | _ \<Rightarrow> []) @ label_kwargs as"

definition pair_ok :: "call list \<Rightarrow> val \<times> val \<times> argkey \<Rightarrow> bool" where
  "pair_ok tr p =
     (case p of (a, t, k) \<Rightarrow>
        (case labelled_ids tr t of None \<Rightarrow> False | Some ids \<Rightarrow> fed_ids tr a k = Some ids))"

definition labels_ok :: "call list \<Rightarrow> call \<Rightarrow> bool" where
  "labels_ok tr c =
     (if is_model_view c then
        label_args (snd c) \<noteq> [] \<and>
        map (\<lambda>p. fst (snd p)) (label_pairs (snd c)) = label_args (snd c) \<and>
        list_all (pair_ok tr) (label_pairs (snd c))
      else True)"

section \<open>Reads and bindings\<close>

fun names :: "expr \<Rightarrow> string list"
and arg_names :: "arg list \<Rightarrow> string list"
and list_names :: "expr list \<Rightarrow> string list"
where
  "names (Name x) = [x]"
| "names (Str t) = []"
| "names (Num i) = []"
| "names (Bool b) = []"
| "names (Attribute e a) = names e"
| "names (Subscript e i) = names e @ names i"
| "names (Add a b) = names a @ names b"
| "names (Call f as) = names f @ arg_names as"
| "names (JoinedStr es) = list_names es"
| "names (ListComp elt x it) = names it @ filter (\<lambda>y. y \<noteq> x) (names elt)"
| "arg_names [] = []"
| "arg_names (Pos e # as) = names e @ arg_names as"
| "arg_names (Kw k e # as) = names e @ arg_names as"
| "arg_names (Star2 e # as) = names e @ arg_names as"
| "list_names [] = []"
| "list_names (e # es) = names e @ list_names es"

fun uses :: "stmt \<Rightarrow> string list" where
  "uses (Assign x e) = names e"
| "uses (ExprStmt e) = names e"
| "uses (Try body handler) = concat (map uses body) @ concat (map uses handler)"
| "uses st = []"

fun binds :: "stmt \<Rightarrow> string list" where
  "binds (ImportFrom m ns) = ns"
| "binds (Assign x e) = [x]"
| "binds (Try body handler) = concat (map binds body) @ concat (map binds handler)"
| "binds st = []"

text \<open>A handle is a name assigned from \<open>X.from_pretrained(...)\<close> or \<open>pipeline(...)\<close>.\<close>

fun is_load :: "expr \<Rightarrow> bool" where
  "is_load (Call (Attribute c m) as) = (m = ''from_pretrained'')"
| "is_load (Call (Name f) as) = (f = ''pipeline'')"
| "is_load e = False"

fun loads :: "stmt \<Rightarrow> string list" where
  "loads (Assign x e) = (if is_load e then [x] else [])"
| "loads (Try body handler) = concat (map loads body) @ concat (map loads handler)"
| "loads st = []"

fun stmts :: "cell \<Rightarrow> stmt list" where
  "stmts Markdown = []"
| "stmts (Code ss) = ss"

definition handles :: "cell list \<Rightarrow> string list" where
  "handles cs = remdups (concat (map loads (concat (map stmts cs))))"

definition cell_uses :: "cell \<Rightarrow> string list" where
  "cell_uses c = concat (map uses (stmts c))"

definition cell_binds :: "cell \<Rightarrow> string list" where
  "cell_binds c = concat (map binds (stmts c))"

text \<open>
  \<open>seen\<close> holds the names bound so far. The first check asks that a cell's handles are
  bound by the cells before it, the second that a statement's handles are bound by the
  statements before it.
\<close>

fun loaded_by_earlier_cell :: "string list \<Rightarrow> string list \<Rightarrow> cell list \<Rightarrow> bool" where
  "loaded_by_earlier_cell hs seen [] = True"
| "loaded_by_earlier_cell hs seen (c # cs) =
     (list_all (\<lambda>x. x \<in> set seen) (filter (\<lambda>x. x \<in> set hs) (cell_uses c)) \<and>
      loaded_by_earlier_cell hs (cell_binds c @ seen) cs)"

fun loaded_by_earlier_stmt :: "string list \<Rightarrow> string list \<Rightarrow> stmt list \<Rightarrow> bool" where
  "loaded_by_earlier_stmt hs seen [] = True"
| "loaded_by_earlier_stmt hs seen (st # sts) =
     (list_all (\<lambda>x. x \<in> set seen) (filter (\<lambda>x. x \<in> set hs) (uses st)) \<and>
      loaded_by_earlier_stmt hs (binds st @ seen) sts)"

section \<open>Exceptions and effects\<close>

text \<open>
  The exceptions the library raised for the calls \<open>cs\<close>, the first of them being the
  \<open>n\<close>-th call of the session.
\<close>

fun raised :: "library \<Rightarrow> nat \<Rightarrow> call list \<Rightarrow> exn list" where
  "raised ext n [] = []"
| "raised ext n (c # cs) =
     (case ext n c of
        None \<Rightarrow> raised ext (Suc n) cs
      | Some x \<Rightarrow> x # raised ext (Suc n) cs)"

fun try_free :: "stmt \<Rightarrow> bool" where
  "try_free (Try body handler) = False"
| "try_free st = True"

definition catches_nothing :: "cell \<Rightarrow> bool" where
  "catches_nothing c = list_all try_free (stmts c)"

fun shell_free :: "stmt \<Rightarrow> bool" where
  "shell_free (Shell ws) = False"
| "shell_free (Magic m ws) = False"
| "shell_free (Try body handler) = (list_all shell_free body \<and> list_all shell_free handler)"
| "shell_free st = True"

text \<open>A library that cannot reach the model hub, and the session after the import cell.\<close>

definition offline :: library where
  "offline n c =
     (if fst c = VImported ''transformers'' ''pipeline'' then Some (LibError ''ConnectionError'')
      else None)"

definition imported :: session where
  "imported = snd (run_cells no_failure (take 3 notebook) fresh)"

definition model_view_session :: session where
  "model_view_session = snd (run_cells no_failure (take 12 notebook) fresh)"

text \<open>
  The invariant of a piece of code that catches nothing, run from \<open>s\<close> to \<open>s'\<close> with
  the outcome \<open>out\<close>: it only adds calls to the record, and either none of them raised,
  or the last one raised, none before it did, and what it raised is the outcome.
\<close>

fun failure :: "exn + 'a \<Rightarrow> exn option" where
  "failure (Inl x) = Some x"
| "failure (Inr v) = None"

definition propagates :: "library \<Rightarrow> session \<Rightarrow> exn option \<Rightarrow> session \<Rightarrow> bool" where
  "propagates ext s out s' \<longleftrightarrow>
     (\<exists>new. calls s' = calls s @ new \<and>
        (raised ext (length (calls s)) new = [] \<or>
         (\<exists>x pre c. out = Some x \<and> new = pre @ [c] \<and>
            raised ext (length (calls s)) pre = [] \<and>
            ext (length (calls s) + length pre) c = Some x)))"

text \<open>
  A run under the library \<open>ext\<close> that was cut short: it ended in \<open>s'\<close> with the exception
  that \<open>ext\<close> raised for the last call made, and the calls made up to there are an
  initial part of the calls of the session \<open>t\<close>.
\<close>

definition stopped :: "library \<Rightarrow> exn option \<Rightarrow> session \<Rightarrow> session \<Rightarrow> bool" where
  "stopped ext out s' t \<longleftrightarrow>
     (\<exists>x pre c. out = Some x \<and> calls s' = pre @ [c] \<and> ext (length pre) c = Some x \<and>
        prefix (calls s') (calls t))"

text \<open>The two shapes every equation of \<open>eval\<close> is built from.\<close>

definition seq :: "(exn + 'a) \<times> session \<Rightarrow> ('a \<Rightarrow> session \<Rightarrow> (exn + 'b) \<times> session) \<Rightarrow> (exn + 'b) \<times> session" where
  "seq r k = (case r of (Inl x, s1) \<Rightarrow> (Inl x, s1) | (Inr v, s1) \<Rightarrow> k v s1)"

definition with_env :: "(string \<times> val) list \<Rightarrow> (exn + 'a) \<times> session \<Rightarrow> (exn + 'a) \<times> session" where
  "with_env a r = (fst r, (snd r)\<lparr>env := a\<rparr>)"

section \<open>Exceptions pass through\<close>

lemma raised_append:
  "raised ext n (as @ bs) = raised ext n as @ raised ext (n + length as) bs"
  by (induction as arbitrary: n) (auto split: option.splits)

lemma propagates_refl: "propagates ext s out s"
  by (simp add: propagates_def)

lemma propagates_trans:
  assumes "propagates ext s None s1" and "propagates ext s1 out s2"
  shows "propagates ext s out s2"
proof -
  from assms(1) obtain n1 where n1: "calls s1 = calls s @ n1"
    and r1: "raised ext (length (calls s)) n1 = []"
    by (auto simp: propagates_def)
  from assms(2) obtain n2 where n2: "calls s2 = calls s1 @ n2"
    and r2: "raised ext (length (calls s1)) n2 = [] \<or>
      (\<exists>x pre c. out = Some x \<and> n2 = pre @ [c] \<and>
         raised ext (length (calls s1)) pre = [] \<and>
         ext (length (calls s1) + length pre) c = Some x)"
    by (auto simp: propagates_def)
  have c2: "calls s2 = calls s @ (n1 @ n2)" using n1 n2 by simp
  from r2 show ?thesis
  proof
    assume "raised ext (length (calls s1)) n2 = []"
    then have "raised ext (length (calls s)) (n1 @ n2) = []"
      using n1 r1 by (simp add: raised_append)
    with c2 show ?thesis unfolding propagates_def by blast
  next
    assume "\<exists>x pre c. out = Some x \<and> n2 = pre @ [c] \<and>
         raised ext (length (calls s1)) pre = [] \<and>
         ext (length (calls s1) + length pre) c = Some x"
    then obtain x pre c where o: "out = Some x" and p: "n2 = pre @ [c]"
      and rp: "raised ext (length (calls s1)) pre = []"
      and e: "ext (length (calls s1) + length pre) c = Some x"
      by blast
    have "n1 @ n2 = (n1 @ pre) @ [c]" using p by simp
    moreover have "raised ext (length (calls s)) (n1 @ pre) = []"
      using n1 r1 rp by (simp add: raised_append)
    moreover have "ext (length (calls s) + length (n1 @ pre)) c = Some x"
      using e n1 by (simp add: add.assoc)
    ultimately show ?thesis using c2 o unfolding propagates_def by blast
  qed
qed

lemma propagates_env_left [simp]:
  "propagates ext (s\<lparr>env := a\<rparr>) out s' = propagates ext s out s'"
  by (simp add: propagates_def)

lemma propagates_env_right [simp]:
  "propagates ext s out (s'\<lparr>env := a\<rparr>) = propagates ext s out s'"
  by (simp add: propagates_def)

lemma propagates_disk_right [simp]:
  "propagates ext s out (s'\<lparr>disk := a\<rparr>) = propagates ext s out s'"
  by (simp add: propagates_def)

lemma invoke_propagates:
  "propagates ext s (failure (fst (invoke ext f as s))) (snd (invoke ext f as s))"
  by (auto simp: invoke_def propagates_def Let_def split: option.splits)

lemma eval_propagates:
  "propagates ext s (failure (fst (eval ext e s))) (snd (eval ext e s))"
  "propagates ext s (failure (fst (eval_args ext as s))) (snd (eval_args ext as s))"
  "propagates ext s (failure (fst (eval_list ext es s))) (snd (eval_list ext es s))"
proof (induction ext e s and ext as s and ext es s rule: eval_eval_args_eval_list.induct)
  case (8 ext f as s)
  then show ?case
    by (auto split: prod.splits sum.splits intro: propagates_trans
        dest: propagates_trans simp: propagates_refl)
      (metis failure.simps(2) fst_conv invoke_propagates propagates_trans snd_conv)
qed (auto split: prod.splits sum.splits option.splits intro: propagates_trans simp: propagates_refl)


lemma exec_propagates:
  "try_free st \<Longrightarrow> propagates ext s (fst (exec ext st s)) (snd (exec ext st s))"
  "list_all try_free sts \<Longrightarrow>
     propagates ext s (fst (exec_block ext sts s)) (snd (exec_block ext sts s))"
proof (induction ext st s and ext sts s rule: exec_exec_block.induct)
  case (4 ext x e s)
  show ?case
    using eval_propagates(1) [of ext s e]
    by (auto split: prod.splits sum.splits)
next
  case (5 ext e s)
  show ?case
    using eval_propagates(1) [of ext s e]
    by (auto split: prod.splits sum.splits)
next
  case (8 ext c cs s)
  then show ?case
    by (auto split: prod.splits option.splits intro: propagates_trans)
qed (simp_all add: propagates_refl)

lemma run_cell_propagates:
  "catches_nothing c \<Longrightarrow> propagates ext s (fst (run_cell ext c s)) (snd (run_cell ext c s))"
  by (cases c) (simp_all add: catches_nothing_def propagates_refl exec_propagates(2))

lemma notebook_catches_nothing: "list_all catches_nothing notebook"
  by code_simp

lemma propagatesD:
  assumes "propagates ext s out s'"
    and "x \<in> set (raised ext (length (calls s)) (drop (length (calls s)) (calls s')))"
  shows "out = Some x"
    and "raised ext (length (calls s)) (drop (length (calls s)) (calls s')) = [x]"
    and "calls s' \<noteq> []"
    and "ext (length (calls s') - 1) (last (calls s')) = Some x"
proof -
  from assms(1) obtain new where new: "calls s' = calls s @ new"
    and r: "raised ext (length (calls s)) new = [] \<or>
      (\<exists>y pre c. out = Some y \<and> new = pre @ [c] \<and>
         raised ext (length (calls s)) pre = [] \<and>
         ext (length (calls s) + length pre) c = Some y)"
    by (auto simp: propagates_def)
  from new have d: "drop (length (calls s)) (calls s') = new" by simp
  from assms(2) have ne: "raised ext (length (calls s)) new \<noteq> []" unfolding d by auto
  with r obtain y pre c where o: "out = Some y" and p: "new = pre @ [c]"
    and rp: "raised ext (length (calls s)) pre = []"
    and e: "ext (length (calls s) + length pre) c = Some y"
    by blast
  have all: "raised ext (length (calls s)) new = [y]"
    using p rp e by (simp add: raised_append)
  with assms(2) have xy: "x = y" unfolding d by simp
  show "out = Some x" using o xy by simp
  show "raised ext (length (calls s)) (drop (length (calls s)) (calls s')) = [x]"
    unfolding d using all xy by simp
  show "calls s' \<noteq> []" using new p by simp
  show "ext (length (calls s') - 1) (last (calls s')) = Some x"
    using new p e xy by simp
qed

text \<open>
  Claim C5. No cell of the notebook contains a \<open>try\<close>; and in every cell, run with any
  library from any session, an exception that the library raises for a call of the cell
  is the outcome of the cell, unchanged. It is the only exception raised during the cell,
  and the call that raised it is the last thing the cell did: nothing is retried and
  nothing runs after it.
\<close>

theorem library_failures_propagate:
  "list_all catches_nothing notebook \<and>
   (c \<in> set notebook \<longrightarrow> run_cell ext c s = (out, s') \<longrightarrow>
    x \<in> set (raised ext (length (calls s)) (drop (length (calls s)) (calls s'))) \<longrightarrow>
    out = Some x \<and>
    raised ext (length (calls s)) (drop (length (calls s)) (calls s')) = [x] \<and>
    ext (length (calls s') - 1) (last (calls s')) = Some x)"
proof (intro conjI impI)
  show all: "list_all catches_nothing notebook" by (rule notebook_catches_nothing)
  assume c: "c \<in> set notebook" and run: "run_cell ext c s = (out, s')"
    and x: "x \<in> set (raised ext (length (calls s)) (drop (length (calls s)) (calls s')))"
  from all c have "catches_nothing c" by (simp add: list_all_iff)
  from run_cell_propagates [OF this, of ext s] run have p: "propagates ext s out s'" by simp
  show "out = Some x" by (rule propagatesD(1) [OF p x])
  show "raised ext (length (calls s)) (drop (length (calls s)) (calls s')) = [x]"
    by (rule propagatesD(2) [OF p x])
  show "ext (length (calls s') - 1) (last (calls s')) = Some x"
    by (rule propagatesD(4) [OF p x])
qed

text \<open>
  Claim C5 at a concrete input: the cell that builds the fill-mask pipeline, run after
  the imports with a library that cannot fetch the checkpoint. The \<open>ConnectionError\<close>
  is what the cell ends with.
\<close>

theorem library_failures_propagate_witness:
  "Code unmasker_cell \<in> set notebook \<and>
   LibError ''ConnectionError'' \<in> set (raised offline (length (calls imported))
      (drop (length (calls imported)) (calls (snd (run_cell offline (Code unmasker_cell) imported))))) \<and>
   fst (run_cell offline (Code unmasker_cell) imported) = Some (LibError ''ConnectionError'')"
proof -
  have c: "Code unmasker_cell \<in> set notebook" by (simp add: notebook_def)
  have x: "LibError ''ConnectionError'' \<in> set (raised offline (length (calls imported))
      (drop (length (calls imported)) (calls (snd (run_cell offline (Code unmasker_cell) imported)))))"
    by code_simp
  from library_failures_propagate [of "Code unmasker_cell" offline imported
      "fst (run_cell offline (Code unmasker_cell) imported)"
      "snd (run_cell offline (Code unmasker_cell) imported)" "LibError ''ConnectionError''"] c x
  show ?thesis by simp
qed

section \<open>What the notebook leaves on disk\<close>

lemma eval_disk:
  "disk (snd (eval ext e s)) = disk s"
  "disk (snd (eval_args ext as s)) = disk s"
  "disk (snd (eval_list ext es s)) = disk s"
  by (induction ext e s and ext as s and ext es s rule: eval_eval_args_eval_list.induct)
     (auto split: prod.splits sum.splits option.splits simp: invoke_def Let_def)

lemma exec_disk:
  "shell_free st \<Longrightarrow> disk (snd (exec ext st s)) = disk s"
  "list_all shell_free sts \<Longrightarrow> disk (snd (exec_block ext sts s)) = disk s"
proof (induction ext st s and ext sts s rule: exec_exec_block.induct)
  case (4 ext x e s)
  show ?case using eval_disk(1) [of ext e s] by (auto split: prod.splits sum.splits)
next
  case (5 ext e s)
  show ?case using eval_disk(1) [of ext e s] by (auto split: prod.splits sum.splits)
qed (auto split: prod.splits option.splits)

lemma other_cells_shell_free:
  "list_all (\<lambda>c. list_all shell_free (stmts c)) (remove1 (Code install_cell) notebook)"
  by code_simp

text \<open>
  Claim C7, amended. The install cell saves \<open>requirements.txt\<close> in the working directory
  and installs the packages it lists. No other cell, run with any library from any
  session, changes anything outside the Python process by a step of its own.
\<close>

theorem only_install_cell_touches_disk:
  "disk (snd (run_cell ext (Code install_cell) s)) =
     disk s @ [Wrote ''requirements.txt'', Installed ''requirements.txt''] \<and>
   (c \<in> set notebook \<longrightarrow> c \<noteq> Code install_cell \<longrightarrow> disk (snd (run_cell ext c s)) = disk s)"
proof (intro conjI impI)
  show "disk (snd (run_cell ext (Code install_cell) s)) =
     disk s @ [Wrote ''requirements.txt'', Installed ''requirements.txt'']"
    by (simp add: install_cell_def)
  assume "c \<in> set notebook" and "c \<noteq> Code install_cell"
  then have "c \<in> set (remove1 (Code install_cell) notebook)" by simp
  with other_cells_shell_free have sf: "list_all shell_free (stmts c)"
    by (simp add: list_all_iff)
  show "disk (snd (run_cell ext c s)) = disk s"
    using sf by (cases c) (simp_all add: exec_disk(2))
qed

text \<open>
  Claim C7, amended, at a concrete input: the first \<open>model_view\<close> cell, run in the
  session that the cells before it leave.
\<close>

theorem only_install_cell_touches_disk_witness:
  "Code model_view_cell \<in> set notebook \<and> Code model_view_cell \<noteq> Code install_cell \<and>
   disk (snd (run_cell no_failure (Code model_view_cell) model_view_session)) =
     disk model_view_session"
proof -
  have c: "Code model_view_cell \<in> set notebook" by (simp add: notebook_def)
  have n: "Code model_view_cell \<noteq> Code install_cell" by code_simp
  from only_install_cell_touches_disk [of no_failure model_view_session "Code model_view_cell"] c n
  show ?thesis by simp
qed

text \<open>
  Claim C7 as stated fails at the second cell of the notebook: run in the fresh session,
  it leaves a file and an installation behind.
\<close>

theorem install_cell_writes_requirements:
  "disk fresh = [] \<and>
   disk (snd (run_cell no_failure (notebook ! 1) fresh)) =
     [Wrote ''requirements.txt'', Installed ''requirements.txt'']"
  by code_simp

section \<open>Every run is an initial part of the full run\<close>

text \<open>
  A run only adds calls to the record. As long as the library raises nothing, a run is
  the run in which nothing raises; once the library raises, a run without \<open>try\<close> stops
  there, with the calls the full run has made up to that point.
\<close>

lemma stopped_mono:
  "stopped ext out s' t \<Longrightarrow> prefix (calls t) (calls t') \<Longrightarrow> stopped ext out s' t'"
  unfolding stopped_def using prefix_order.trans by blast

lemma stopped_env_left [simp]: "stopped ext out (s'\<lparr>env := a\<rparr>) t = stopped ext out s' t"
  by (simp add: stopped_def)

lemma stopped_env_right [simp]: "stopped ext out s' (t\<lparr>env := a\<rparr>) = stopped ext out s' t"
  by (simp add: stopped_def)

lemma invoke_grows: "prefix (calls s) (calls (snd (invoke ext f as s)))"
  by (simp add: invoke_def Let_def split: option.splits)

lemma eval_grows:
  "prefix (calls s) (calls (snd (eval ext e s)))"
  "prefix (calls s) (calls (snd (eval_args ext as s)))"
  "prefix (calls s) (calls (snd (eval_list ext es s)))"
proof (induction ext e s and ext as s and ext es s rule: eval_eval_args_eval_list.induct)
  case (8 ext f as s)
  then show ?case
    using invoke_grows
    by (auto split: prod.splits sum.splits) (metis prefix_order.trans snd_conv)
qed (auto split: prod.splits sum.splits option.splits intro: prefix_order.trans)

lemma invoke_follows:
  "invoke ext f as s = invoke no_failure f as s \<or>
   stopped ext (failure (fst (invoke ext f as s))) (snd (invoke ext f as s))
     (snd (invoke no_failure f as s))"
  by (auto simp: invoke_def Let_def no_failure_def stopped_def split: option.splits)

lemma eval_seq:
  "eval ext (Attribute e at) s = seq (eval ext e s) (\<lambda>v s1. (Inr (VAttr v at), s1))"
  "eval ext (Subscript e i) s =
     seq (eval ext e s) (\<lambda>v s1. seq (eval ext i s1) (\<lambda>w s2. (Inr (VItem v w), s2)))"
  "eval ext (Add l r) s =
     seq (eval ext l s) (\<lambda>v s1. seq (eval ext r s1) (\<lambda>w s2. (Inr (add_val v w), s2)))"
  "eval ext (Call f as) s =
     seq (eval ext f s) (\<lambda>v s1. seq (eval_args ext as s1) (\<lambda>ws s2. invoke ext v ws s2))"
  "eval ext (JoinedStr es) s = seq (eval_list ext es s) (\<lambda>vs s1. (Inr (VFormat vs), s1))"
  "eval ext (ListComp elt x it) s =
     seq (eval ext it s) (\<lambda>v s1. with_env (env s1)
       (seq (eval ext elt (s1\<lparr>env := (x, VElem v) # env s1\<rparr>)) (\<lambda>w s2. (Inr (VComp w v), s2))))"
  "eval_args ext (Pos e # as) s =
     seq (eval ext e s) (\<lambda>v s1. seq (eval_args ext as s1) (\<lambda>ws s2. (Inr ((KPos, v) # ws), s2)))"
  "eval_args ext (Kw k e # as) s =
     seq (eval ext e s) (\<lambda>v s1. seq (eval_args ext as s1) (\<lambda>ws s2. (Inr ((KKw k, v) # ws), s2)))"
  "eval_args ext (Star2 e # as) s =
     seq (eval ext e s) (\<lambda>v s1. seq (eval_args ext as s1) (\<lambda>ws s2. (Inr ((KStar2, v) # ws), s2)))"
  "eval_list ext (e # es) s =
     seq (eval ext e s) (\<lambda>v s1. seq (eval_list ext es s1) (\<lambda>vs s2. (Inr (v # vs), s2)))"
  by (simp_all add: seq_def with_env_def split: prod.splits sum.splits)

lemma not_stopped_None [simp]: "\<not> stopped ext None s t"
  by (simp add: stopped_def)

lemma seq_follows:
  assumes first: "r = r' \<or> stopped ext (failure (fst r)) (snd r) (snd r')"
    and second: "\<And>v s1. r = (Inr v, s1) \<Longrightarrow>
      k v s1 = k' v s1 \<or> stopped ext (failure (fst (k v s1))) (snd (k v s1)) (snd (k' v s1))"
    and grows: "\<And>v s1. prefix (calls s1) (calls (snd (k' v s1)))"
  shows "seq r k = seq r' k' \<or>
    stopped ext (failure (fst (seq r k))) (snd (seq r k)) (snd (seq r' k'))"
proof (cases r)
  case (Pair a s1)
  show ?thesis
  proof (cases a)
    case (Inl x)
    with Pair have r: "r = (Inl x, s1)" by simp
    then have sk: "seq r k = (Inl x, s1)" by (simp add: seq_def)
    from first show ?thesis
    proof
      assume "r = r'"
      with r show ?thesis by (simp add: seq_def)
    next
      assume "stopped ext (failure (fst r)) (snd r) (snd r')"
      with r have st: "stopped ext (Some x) s1 (snd r')" by simp
      have "prefix (calls (snd r')) (calls (snd (seq r' k')))"
        using grows by (auto simp: seq_def split: prod.splits sum.splits)
      from stopped_mono [OF st this] sk show ?thesis by simp
    qed
  next
    case (Inr v)
    with Pair have r: "r = (Inr v, s1)" by simp
    with first have "r' = (Inr v, s1)" by auto
    with r second [OF r] show ?thesis by (simp add: seq_def)
  qed
qed

lemma seq_grows:
  assumes "prefix (calls s) (calls (snd r))"
    and "\<And>v s1. prefix (calls s1) (calls (snd (k v s1)))"
  shows "prefix (calls s) (calls (snd (seq r k)))"
  using assms by (auto simp: seq_def split: prod.splits sum.splits intro: prefix_order.trans)

lemma with_env_follows:
  assumes "r = r' \<or> stopped ext (failure (fst r)) (snd r) (snd r')"
  shows "with_env a r = with_env a r' \<or>
    stopped ext (failure (fst (with_env a r))) (snd (with_env a r)) (snd (with_env a r'))"
  using assms by (auto simp: with_env_def)

lemma with_env_calls [simp]: "calls (snd (with_env a r)) = calls (snd r)"
  by (simp add: with_env_def)

lemma eval_follows:
  "eval ext e s = eval no_failure e s \<or>
   stopped ext (failure (fst (eval ext e s))) (snd (eval ext e s)) (snd (eval no_failure e s))"
  "eval_args ext as s = eval_args no_failure as s \<or>
   stopped ext (failure (fst (eval_args ext as s))) (snd (eval_args ext as s))
     (snd (eval_args no_failure as s))"
  "eval_list ext es s = eval_list no_failure es s \<or>
   stopped ext (failure (fst (eval_list ext es s))) (snd (eval_list ext es s))
     (snd (eval_list no_failure es s))"
proof (induction ext e s and ext as s and ext es s rule: eval_eval_args_eval_list.induct)
  case (5 ext e a s)
  show ?case unfolding eval_seq
    by (rule seq_follows) (use "5.IH" in simp_all)
next
  case (6 ext e i s)
  show ?case unfolding eval_seq
    apply (rule seq_follows)
      apply (rule "6.IH"(1))
     apply (rule seq_follows)
       apply (rule "6.IH"(2))
        apply simp_all
    apply (rule seq_grows)
     apply (rule eval_grows)
    apply simp
    done
next
  case (7 ext a b s)
  show ?case unfolding eval_seq
    apply (rule seq_follows)
      apply (rule "7.IH"(1))
     apply (rule seq_follows)
       apply (rule "7.IH"(2))
        apply simp_all
    apply (rule seq_grows)
     apply (rule eval_grows)
    apply simp
    done
next
  case (8 ext f as s)
  show ?case unfolding eval_seq
    apply (rule seq_follows)
      apply (rule "8.IH"(1))
     apply (rule seq_follows)
       apply (rule "8.IH"(2))
        apply simp_all
      apply (rule invoke_follows)
     apply (rule invoke_grows)
    apply (rule seq_grows)
     apply (rule eval_grows)
    apply (rule invoke_grows)
    done
next
  case (9 ext es s)
  show ?case unfolding eval_seq
    by (rule seq_follows) (use "9.IH" in simp_all)
next
  case (10 ext elt x it s)
  show ?case unfolding eval_seq
    apply (rule seq_follows)
      apply (rule "10.IH"(1))
     apply (rule with_env_follows)
     apply (rule seq_follows)
       apply (rule "10.IH"(2))
        apply simp_all
    apply (rule seq_grows)
     apply (rule prefix_order.trans [OF _ eval_grows(1)])
     apply simp
    apply simp
    done
next
  case (12 ext e as s)
  show ?case unfolding eval_seq
    apply (rule seq_follows)
      apply (rule "12.IH"(1))
     apply (rule seq_follows)
       apply (rule "12.IH"(2))
        apply simp_all
    apply (rule seq_grows)
     apply (rule eval_grows)
    apply simp
    done
next
  case (13 ext k e as s)
  show ?case unfolding eval_seq
    apply (rule seq_follows)
      apply (rule "13.IH"(1))
     apply (rule seq_follows)
       apply (rule "13.IH"(2))
        apply simp_all
    apply (rule seq_grows)
     apply (rule eval_grows)
    apply simp
    done
next
  case (14 ext e as s)
  show ?case unfolding eval_seq
    apply (rule seq_follows)
      apply (rule "14.IH"(1))
     apply (rule seq_follows)
       apply (rule "14.IH"(2))
        apply simp_all
    apply (rule seq_grows)
     apply (rule eval_grows)
    apply simp
    done
next
  case (16 ext e es s)
  show ?case unfolding eval_seq
    apply (rule seq_follows)
      apply (rule "16.IH"(1))
     apply (rule seq_follows)
       apply (rule "16.IH"(2))
        apply simp_all
    apply (rule seq_grows)
     apply (rule eval_grows)
    apply simp
    done
qed (simp_all)


lemma exec_grows:
  "prefix (calls s) (calls (snd (exec ext st s)))"
  "prefix (calls s) (calls (snd (exec_block ext sts s)))"
proof (induction ext st s and ext sts s rule: exec_exec_block.induct)
  case (4 ext x e s)
  show ?case using eval_grows(1) [of s ext e] by (auto split: prod.splits sum.splits)
next
  case (5 ext e s)
  show ?case using eval_grows(1) [of s ext e] by (auto split: prod.splits sum.splits)
next
  case (6 ext body handler s)
  then show ?case by (auto split: prod.splits option.splits intro: prefix_order.trans)
next
  case (8 ext c cs s)
  then show ?case by (auto split: prod.splits option.splits intro: prefix_order.trans)
qed simp_all

lemma exec_follows:
  "try_free st \<Longrightarrow>
     exec ext st s = exec no_failure st s \<or>
     stopped ext (fst (exec ext st s)) (snd (exec ext st s)) (snd (exec no_failure st s))"
  "list_all try_free sts \<Longrightarrow>
     exec_block ext sts s = exec_block no_failure sts s \<or>
     stopped ext (fst (exec_block ext sts s)) (snd (exec_block ext sts s))
       (snd (exec_block no_failure sts s))"
proof (induction ext st s and ext sts s rule: exec_exec_block.induct)
  case (4 ext x e s)
  show ?case using eval_follows(1) [of ext e s] by (auto split: prod.splits sum.splits)
next
  case (5 ext e s)
  show ?case using eval_follows(1) [of ext e s] by (auto split: prod.splits sum.splits)
next
  case (8 ext c cs s)
  from "8.prems" have c: "try_free c" and cs: "list_all try_free cs" by simp_all
  from "8.IH"(1) [OF c] show ?case
  proof
    assume eq: "exec ext c s = exec no_failure c s"
    show ?thesis
    proof (cases "exec ext c s")
      case (Pair out s1)
      show ?thesis
      proof (cases out)
        case None
        with Pair "8.IH"(2) [OF _ _ cs] eq show ?thesis by simp
      next
        case (Some x)
        with Pair eq show ?thesis by simp
      qed
    qed
  next
    assume st: "stopped ext (fst (exec ext c s)) (snd (exec ext c s)) (snd (exec no_failure c s))"
    then obtain x where x: "fst (exec ext c s) = Some x" by (auto simp: stopped_def)
    then have l: "exec_block ext (c # cs) s = exec ext c s"
      by (cases "exec ext c s") simp
    have "prefix (calls (snd (exec no_failure c s))) (calls (snd (exec_block no_failure (c # cs) s)))"
      using exec_grows(2) [of _ no_failure cs]
      by (auto split: prod.splits option.splits)
    from stopped_mono [OF st this] l show ?thesis by simp
  qed
qed simp_all

lemma run_cell_grows: "prefix (calls s) (calls (snd (run_cell ext c s)))"
  by (cases c) (simp_all add: exec_grows)

lemma run_cells_grows: "prefix (calls s) (calls (snd (run_cells ext cs s)))"
proof (induction cs arbitrary: s)
  case Nil
  show ?case by simp
next
  case (Cons c cs)
  show ?case
    using run_cell_grows [of s ext c] Cons.IH
    by (auto split: prod.splits option.splits intro: prefix_order.trans)
qed

lemma run_cell_follows:
  "catches_nothing c \<Longrightarrow>
     run_cell ext c s = run_cell no_failure c s \<or>
     stopped ext (fst (run_cell ext c s)) (snd (run_cell ext c s)) (snd (run_cell no_failure c s))"
  by (cases c) (simp_all add: catches_nothing_def exec_follows(2))

lemma run_cells_follows:
  "list_all catches_nothing cs \<Longrightarrow>
     run_cells ext cs s = run_cells no_failure cs s \<or>
     stopped ext (fst (run_cells ext cs s)) (snd (run_cells ext cs s))
       (snd (run_cells no_failure cs s))"
proof (induction cs arbitrary: s)
  case Nil
  show ?case by simp
next
  case (Cons c cs)
  from Cons.prems have c: "catches_nothing c" and cs: "list_all catches_nothing cs" by simp_all
  from run_cell_follows [OF c, of ext s] show ?case
  proof
    assume eq: "run_cell ext c s = run_cell no_failure c s"
    show ?thesis
    proof (cases "run_cell ext c s")
      case (Pair out s1)
      show ?thesis
      proof (cases out)
        case None
        with Pair Cons.IH [OF cs, of s1] eq show ?thesis by simp
      next
        case (Some x)
        with Pair eq show ?thesis by simp
      qed
    qed
  next
    assume st: "stopped ext (fst (run_cell ext c s)) (snd (run_cell ext c s))
      (snd (run_cell no_failure c s))"
    then obtain x where x: "fst (run_cell ext c s) = Some x" by (auto simp: stopped_def)
    then have l: "run_cells ext (c # cs) s = run_cell ext c s"
      by (cases "run_cell ext c s") simp
    have "prefix (calls (snd (run_cell no_failure c s)))
      (calls (snd (run_cells no_failure (c # cs) s)))"
      using run_cells_grows [of _ no_failure cs]
      by (auto split: prod.splits option.splits)
    from stopped_mono [OF st this] l show ?thesis by simp
  qed
qed

lemma any_run_follows:
  "run_cells ext notebook fresh = full_run \<or>
   stopped ext (fst (run_cells ext notebook fresh)) (snd (run_cells ext notebook fresh))
     (snd full_run)"
  unfolding full_run_def by (rule run_cells_follows [OF notebook_catches_nothing])

lemma any_run_prefix: "prefix (calls (snd (run_cells ext notebook fresh))) full_trace"
  using any_run_follows [of ext] by (auto simp: full_trace_def stopped_def)

lemma run_cells_propagates:
  "list_all catches_nothing cs \<Longrightarrow>
     propagates ext s (fst (run_cells ext cs s)) (snd (run_cells ext cs s))"
proof (induction cs arbitrary: s)
  case Nil
  show ?case by (simp add: propagates_refl)
next
  case (Cons c cs)
  from Cons.prems have c: "catches_nothing c" and cs: "list_all catches_nothing cs" by simp_all
  show ?case
    using run_cell_propagates [OF c, of ext s] Cons.IH [OF cs]
    by (auto split: prod.splits option.splits intro: propagates_trans)
qed

section \<open>The calls of the full run\<close>

text \<open>
  Every call the notebook makes when nothing raises, in order; the position in the list
  is the number of the call, by which \<open>VResult\<close> refers to what it returned.
\<close>

lemma full_trace_eq:
  "full_trace =
    [(VAttr (VAttr (VImported ''transformers'' ''utils'') ''logging'') ''set_verbosity_error'', []),
     (VAttr (VImported ''transformers'' ''AutoTokenizer'') ''from_pretrained'',
      [(KPos, VStr ''bert-base-cased'')]),
     (VAttr (VResult 1) ''encode'', [(KPos, VStr ''WANDISCO'')]),
     (VBuiltin ''print'', [(KPos, VFormat [VStr ''IDS: '', VResult 2])]),
     (VAttr (VResult 1) ''convert_ids_to_tokens'', [(KPos, VResult 2)]),
     (VBuiltin ''print'', [(KPos, VFormat [VStr ''Tokens: '', VResult 4])]),
     (VImported ''transformers'' ''pipeline'',
      [(KPos, VStr ''fill-mask''), (KKw ''model'', VStr ''bert-base-cased'')]),
     (VResult 6, [(KPos, VStr ''WANDISCO is a [MASK] company'')]),
     (VResult 6, [(KPos, VStr ''The man worked as a [MASK].'')]),
     (VResult 6, [(KPos, VStr ''The woman worked as a [MASK].'')]),
     (VBuiltin ''print'',
      [(KPos, VFormat [VStr ''Male predictions: '',
         VComp (VItem (VElem (VResult 8)) (VStr ''token_str'')) (VResult 8)])]),
     (VBuiltin ''print'',
      [(KPos, VFormat [VStr ''Female predictions: '',
         VComp (VItem (VElem (VResult 9)) (VStr ''token_str'')) (VResult 9)])]),
     (VAttr (VImported ''bertviz.transformers_neuron_view'' ''BertModel'') ''from_pretrained'',
      [(KPos, VStr ''bert-base-cased''), (KKw ''output_attentions'', VBool True)]),
     (VAttr (VImported ''bertviz.transformers_neuron_view'' ''BertTokenizer'') ''from_pretrained'',
      [(KPos, VStr ''bert-base-cased''), (KKw ''do_lower_case'', VBool False)]),
     (VImported ''bertviz.neuron_view'' ''show'',
      [(KPos, VResult 12), (KPos, VStr ''bert''), (KPos, VResult 13),
       (KPos, VStr ''The rabbit ran up the hill and the fox followed''),
       (KKw ''layer'', VInt 2), (KKw ''head'', VInt 0)]),
     (VAttr (VImported ''transformers'' ''AutoModel'') ''from_pretrained'',
      [(KPos, VStr ''bert-base-cased''), (KKw ''output_attentions'', VBool True)]),
     (VAttr (VImported ''transformers'' ''AutoTokenizer'') ''from_pretrained'',
      [(KPos, VStr ''bert-base-cased'')]),
     (VAttr (VResult 16) ''encode'',
      [(KPos, VStr ''The rabbit ran up the hill and the fox followed''),
       (KKw ''return_tensors'', VStr ''pt'')]),
     (VResult 15, [(KPos, VResult 17)]),
     (VAttr (VResult 16) ''convert_ids_to_tokens'', [(KPos, VItem (VResult 17) (VInt 0))]),
     (VImported ''bertviz'' ''model_view'',
      [(KPos, VItem (VResult 18) (VInt (- 1))), (KPos, VResult 19)]),
     (VAttr (VResult 16) ''encode'',
      [(KPos, VStr ''The rabbit ran up the hill and the fox followed''),
       (KPos, VStr ''The rabbit ran up the hill and the fox did not follow''),
       (KKw ''return_tensors'', VStr ''pt'')]),
     (VResult 15, [(KPos, VResult 21)]),
     (VAttr (VResult 16) ''convert_ids_to_tokens'', [(KPos, VItem (VResult 21) (VInt 0))]),
     (VAttr (VStr '' '') ''join'', [(KPos, VResult 23)]),
     (VBuiltin ''print'', [(KPos, VResult 24)]),
     (VImported ''bertviz'' ''model_view'',
      [(KPos, VItem (VResult 22) (VInt (- 1))), (KPos, VResult 23)]),
     (VAttr (VImported ''transformers'' ''T5ForConditionalGeneration'') ''from_pretrained'',
      [(KPos, VStr ''t5-small''), (KKw ''output_attentions'', VBool True)]),
     (VAttr (VImported ''transformers'' ''AutoTokenizer'') ''from_pretrained'',
      [(KPos, VStr ''t5-small''), (KKw ''model_max_length'', VInt 512)]),
     (VResult 28,
      [(KPos, VStr ''translate English to German: I flew to Germany.''),
       (KKw ''return_tensors'', VStr ''pt'')]),
     (VAttr (VResult 27) ''generate'', [(KStar2, VResult 29), (KKw ''max_length'', VInt 512)]),
     (VAttr (VResult 28) ''batch_decode'', [(KPos, VResult 30)]),
     (VResult 28,
      [(KPos, VStr (''summarize: This is a long story about the rabbit and the fox. '' @
         ''The rabbit ran up the hill to escape the fox. One time the fox followed. '' @
         ''The other time, it did not.'')),
       (KKw ''return_tensors'', VStr ''pt'')]),
     (VAttr (VResult 27) ''generate'', [(KStar2, VResult 32), (KKw ''max_length'', VInt 512)]),
     (VAttr (VResult 28) ''batch_decode'', [(KPos, VResult 33)]),
     (VResult 28,
      [(KPos, VStr ''translate English to German: I flew to Germany.''),
       (KKw ''return_tensors'', VStr ''pt''), (KKw ''add_special_tokens'', VBool True)]),
     (VResult 28,
      [(KKw ''text_target'', VStr ''Ich flog nach Deutschland.''),
       (KKw ''return_tensors'', VStr ''pt''), (KKw ''add_special_tokens'', VBool True)]),
     (VResult 27,
      [(KKw ''input_ids'', VAttr (VResult 35) ''input_ids''),
       (KKw ''decoder_input_ids'', VAttr (VResult 36) ''input_ids'')]),
     (VAttr (VResult 28) ''convert_ids_to_tokens'',
      [(KPos, VItem (VAttr (VResult 35) ''input_ids'') (VInt 0))]),
     (VAttr (VResult 28) ''convert_ids_to_tokens'',
      [(KPos, VItem (VAttr (VResult 36) ''input_ids'') (VInt 0))]),
     (VImported ''bertviz'' ''model_view'',
      [(KKw ''encoder_attention'', VAttr (VResult 37) ''encoder_attentions''),
       (KKw ''decoder_attention'', VAttr (VResult 37) ''decoder_attentions''),
       (KKw ''cross_attention'', VAttr (VResult 37) ''cross_attentions''),
       (KKw ''encoder_tokens'', VResult 38),
       (KKw ''decoder_tokens'', VResult 39)])]"
  by code_simp

lemma full_trace_length: "length full_trace = 41"
  unfolding full_trace_eq by simp

lemma prefix_take: "prefix xs ys \<Longrightarrow> xs = take (length xs) ys"
  by (auto simp: prefix_def)

lemma any_trace_cases:
  "calls (snd (run_cells ext notebook fresh)) \<in> set (map (\<lambda>k. take k full_trace) [0..<42])"
proof -
  let ?tr = "calls (snd (run_cells ext notebook fresh))"
  have p: "prefix ?tr full_trace" by (rule any_run_prefix)
  then have "length ?tr \<le> 41" using full_trace_length by (auto dest: prefix_length_le)
  moreover have "?tr = take (length ?tr) full_trace" using p by (rule prefix_take)
  ultimately show ?thesis by (auto simp: image_iff intro!: bexI [where x = "length ?tr"])
qed

lemma every_prefix_visualisation_ok:
  "list_all (\<lambda>tr. list_all (visualisation_ok tr) tr) (map (\<lambda>k. take k full_trace) [0..<42])"
  unfolding full_trace_eq by code_simp

lemma every_prefix_labels_ok:
  "list_all (\<lambda>tr. list_all (labels_ok tr) tr) (map (\<lambda>k. take k full_trace) [0..<42])"
  unfolding full_trace_eq by code_simp

lemma generate_calls_eq:
  "filter is_generate full_trace =
     [(VAttr (VResult 27) ''generate'', [(KStar2, VResult 29), (KKw ''max_length'', VInt 512)]),
      (VAttr (VResult 27) ''generate'', [(KStar2, VResult 32), (KKw ''max_length'', VInt 512)])]"
  unfolding full_trace_eq by code_simp

lemma any_generate_calls:
  "prefix (filter is_generate (calls (snd (run_cells ext notebook fresh))))
     [(VAttr (VResult 27) ''generate'', [(KStar2, VResult 29), (KKw ''max_length'', VInt 512)]),
      (VAttr (VResult 27) ''generate'', [(KStar2, VResult 32), (KKw ''max_length'', VInt 512)])]"
  using filter_mono_prefix [OF any_run_prefix, of is_generate ext] by (simp add: generate_calls_eq)

text \<open>
  Claim C4, amended. The notebook calls \<open>generate\<close> twice, and a run under any library
  makes these calls or the first of them or none. Both pass the T5 tokenizer's encoding
  of the prefix-tagged prompt string, unpacked with \<open>**\<close>, and one generation parameter,
  \<open>max_length=512\<close>. Nothing else is passed: no beam-search or sampling setting, so the
  library's defaults apply to everything but the maximum length.
\<close>

theorem generate_passes_prompt_and_max_length:
  "prefix (filter is_generate (calls (snd (run_cells ext notebook fresh))))
     (filter is_generate full_trace) \<and>
   filter is_generate full_trace =
     [(VAttr (VResult 27) ''generate'', [(KStar2, VResult 29), (KKw ''max_length'', VInt 512)]),
      (VAttr (VResult 27) ''generate'', [(KStar2, VResult 32), (KKw ''max_length'', VInt 512)])] \<and>
   call_of full_trace (VResult 27) =
     Some (VAttr (VImported ''transformers'' ''T5ForConditionalGeneration'') ''from_pretrained'',
       [(KPos, VStr ''t5-small''), (KKw ''output_attentions'', VBool True)]) \<and>
   call_of full_trace (VResult 29) =
     Some (VResult 28,
       [(KPos, VStr ''translate English to German: I flew to Germany.''),
        (KKw ''return_tensors'', VStr ''pt'')]) \<and>
   call_of full_trace (VResult 32) =
     Some (VResult 28,
       [(KPos, VStr (''summarize: This is a long story about the rabbit and the fox. '' @
          ''The rabbit ran up the hill to escape the fox. One time the fox followed. '' @
          ''The other time, it did not.'')),
        (KKw ''return_tensors'', VStr ''pt'')]) \<and>
   call_of full_trace (VResult 28) =
     Some (VAttr (VImported ''transformers'' ''AutoTokenizer'') ''from_pretrained'',
       [(KPos, VStr ''t5-small''), (KKw ''model_max_length'', VInt 512)])"
proof (intro conjI)
  show "prefix (filter is_generate (calls (snd (run_cells ext notebook fresh))))
     (filter is_generate full_trace)"
    using any_generate_calls [of ext] by (simp add: generate_calls_eq)
  show "filter is_generate full_trace =
     [(VAttr (VResult 27) ''generate'', [(KStar2, VResult 29), (KKw ''max_length'', VInt 512)]),
      (VAttr (VResult 27) ''generate'', [(KStar2, VResult 32), (KKw ''max_length'', VInt 512)])]"
    by (rule generate_calls_eq)
qed (unfold full_trace_eq, code_simp+)

text \<open>
  Claim C4 as stated fails at the first call of \<open>generate\<close>, call 30 of the run: it is
  given \<open>max_length=512\<close> besides the prompt, so not only the library's defaults apply.
\<close>

theorem generate_sets_max_length:
  "is_generate (full_trace ! 30) \<and>
   keyword_args (snd (full_trace ! 30)) = [(''max_length'', VInt 512)] \<and>
   \<not> library_defaults_only (full_trace ! 30)"
  unfolding full_trace_eq by code_simp

text \<open>
  Claim C9. In a run under any library, the model given to \<open>show\<close> was loaded by
  \<open>from_pretrained\<close> with \<open>output_attentions=True\<close>, and every attention value given to
  \<open>model_view\<close> is \<open>out[-1]\<close> or an attention field of \<open>out\<close>, where \<open>out\<close> was returned
  by calling a model loaded with \<open>output_attentions=True\<close>; the attention values of one
  call of \<open>model_view\<close> are read from the same \<open>out\<close>. The full run calls \<open>show\<close> once
  and \<open>model_view\<close> three times, on the outputs of the models of calls 15 (BERT) and
  27 (T5).
\<close>

theorem attention_from_models_loaded_with_attentions:
  "list_all (visualisation_ok (calls (snd (run_cells ext notebook fresh))))
     (calls (snd (run_cells ext notebook fresh))) \<and>
   map fst (filter (\<lambda>c. is_show c \<or> is_model_view c) full_trace) =
     [VImported ''bertviz.neuron_view'' ''show'', VImported ''bertviz'' ''model_view'',
      VImported ''bertviz'' ''model_view'', VImported ''bertviz'' ''model_view''] \<and>
   map (\<lambda>c. map (forward_model full_trace) (model_view_attentions (snd c)))
     (filter is_model_view full_trace) =
     [[Some (VResult 15)], [Some (VResult 15)],
      [Some (VResult 27), Some (VResult 27), Some (VResult 27)]]"
proof (intro conjI)
  show "list_all (visualisation_ok (calls (snd (run_cells ext notebook fresh))))
     (calls (snd (run_cells ext notebook fresh)))"
    using every_prefix_visualisation_ok any_trace_cases [of ext]
    unfolding list_all_iff by blast
  show "map fst (filter (\<lambda>c. is_show c \<or> is_model_view c) full_trace) =
     [VImported ''bertviz.neuron_view'' ''show'', VImported ''bertviz'' ''model_view'',
      VImported ''bertviz'' ''model_view'', VImported ''bertviz'' ''model_view'']"
    unfolding full_trace_eq by code_simp
  show "map (\<lambda>c. map (forward_model full_trace) (model_view_attentions (snd c)))
     (filter is_model_view full_trace) =
     [[Some (VResult 15)], [Some (VResult 15)],
      [Some (VResult 27), Some (VResult 27), Some (VResult 27)]]"
    unfolding full_trace_eq by code_simp
qed

text \<open>
  Claim C10. In a run under any library, every argument of token labels of a call of
  \<open>model_view\<close> was returned by \<open>convert_ids_to_tokens\<close> applied to \<open>ids[0]\<close>, where
  \<open>ids\<close> is the very object that was passed to the forward pass whose output the
  attention beside the labels is read from: as the positional argument for BERT, as
  \<open>input_ids\<close> for the encoder labels and as \<open>decoder_input_ids\<close> for the decoder labels
  of T5. The three calls of the full run have these pairs of attention and labels.
\<close>

theorem labels_from_ids_fed_to_model:
  "list_all (labels_ok (calls (snd (run_cells ext notebook fresh))))
     (calls (snd (run_cells ext notebook fresh))) \<and>
   map (\<lambda>c. label_pairs (snd c)) (filter is_model_view full_trace) =
     [[(VItem (VResult 18) (VInt (- 1)), VResult 19, KPos)],
      [(VItem (VResult 22) (VInt (- 1)), VResult 23, KPos)],
      [(VAttr (VResult 37) ''encoder_attentions'', VResult 38, KKw ''input_ids''),
       (VAttr (VResult 37) ''decoder_attentions'', VResult 39, KKw ''decoder_input_ids'')]]"
proof (intro conjI)
  show "list_all (labels_ok (calls (snd (run_cells ext notebook fresh))))
     (calls (snd (run_cells ext notebook fresh)))"
    using every_prefix_labels_ok any_trace_cases [of ext]
    unfolding list_all_iff by blast
  show "map (\<lambda>c. label_pairs (snd c)) (filter is_model_view full_trace) =
     [[(VItem (VResult 18) (VInt (- 1)), VResult 19, KPos)],
      [(VItem (VResult 22) (VInt (- 1)), VResult 23, KPos)],
      [(VAttr (VResult 37) ''encoder_attentions'', VResult 38, KKw ''input_ids''),
       (VAttr (VResult 37) ''decoder_attentions'', VResult 39, KKw ''decoder_input_ids'')]]"
    unfolding full_trace_eq by code_simp
qed

section \<open>Handles are loaded before they are used\<close>

lemma full_run_completes: "fst full_run = None"
  by code_simp

lemma any_run_outcome:
  "fst (run_cells ext notebook fresh) = None \<or>
   map Some (raised ext 0 (calls (snd (run_cells ext notebook fresh)))) =
     [fst (run_cells ext notebook fresh)]"
proof -
  let ?R = "run_cells ext notebook fresh"
  from any_run_follows [of ext] show ?thesis
  proof
    assume "?R = full_run"
    then show ?thesis by (simp add: full_run_completes)
  next
    assume "stopped ext (fst ?R) (snd ?R) (snd full_run)"
    then obtain x pre c where o: "fst ?R = Some x" and tr: "calls (snd ?R) = pre @ [c]"
      and e: "ext (length pre) c = Some x"
      by (auto simp: stopped_def)
    have x: "x \<in> set (raised ext (length (calls fresh)) (drop (length (calls fresh)) (calls (snd ?R))))"
      using tr e by (simp add: fresh_def raised_append)
    have p: "propagates ext fresh (fst ?R) (snd ?R)"
      by (rule run_cells_propagates [OF notebook_catches_nothing])
    from propagatesD(2) [OF p x] o show ?thesis by (simp add: fresh_def)
  qed
qed

text \<open>
  Claim C8, amended. The notebook has seven handles. Every handle that a statement uses
  is assigned by an earlier statement, of an earlier cell or of the same cell. So the
  run of all cells from top to bottom ends without an exception when no call raises,
  and under any library it ends without one or with the one exception that the library
  raised: never with a \<open>NameError\<close> for a handle not yet loaded.
\<close>

theorem handles_loaded_before_use:
  "handles notebook =
     [''unmasker'', ''bert_model'', ''bert_tokenizer'', ''model'', ''tokenizer'',
      ''t5_model'', ''t5_tokenizer''] \<and>
   loaded_by_earlier_stmt (handles notebook) [] (concat (map stmts notebook)) \<and>
   fst full_run = None \<and>
   (fst (run_cells ext notebook fresh) = None \<or>
    map Some (raised ext 0 (calls (snd (run_cells ext notebook fresh)))) =
      [fst (run_cells ext notebook fresh)])"
proof (intro conjI)
  show "fst full_run = None" by (rule full_run_completes)
  show "fst (run_cells ext notebook fresh) = None \<or>
    map Some (raised ext 0 (calls (snd (run_cells ext notebook fresh)))) =
      [fst (run_cells ext notebook fresh)]"
    by (rule any_run_outcome)
qed code_simp+

text \<open>
  Claim C8 as stated fails at the tokenising cell, the fifth of the notebook: it uses the
  handle \<open>tokenizer\<close>, which no cell before it assigns; the cell loads it itself.
\<close>

theorem tokenizer_loaded_in_its_own_cell:
  "''tokenizer'' \<in> set (handles notebook) \<and>
   ''tokenizer'' \<in> set (cell_uses (notebook ! 4)) \<and>
   ''tokenizer'' \<notin> set (concat (map cell_binds (take 4 notebook))) \<and>
   \<not> loaded_by_earlier_cell (handles notebook) [] notebook"
  by code_simp

end
